theory Spec2Isabelle
  imports Complex_Main
begin

section \<open>Python values used by the module\<close>

text \<open>
  Python integers are unbounded: \<open>int\<close>. A Python \<open>str\<close> is a sequence of code
  points; the model keeps the code points below 256 (\<open>char\<close>), which is enough for
  every builtin the module calls on them (\<open>lower\<close>, \<open>isdigit\<close>, \<open>replace\<close>, slicing).
  Exceptions are values of \<open>py_error\<close>; a function that can raise returns
  \<open>py_error + 'a\<close>.
\<close>

datatype py_error = ValueError string | TypeError | ZeroDivisionError

text \<open>
  \<open>xs[start:stop]\<close> on a list, with step 1: a negative bound counts from the end, and
  both bounds are then cut to \<open>0 .. len(xs)\<close>; an empty range gives the empty list.
\<close>

definition py_slice :: "'a list \<Rightarrow> int \<Rightarrow> int \<Rightarrow> 'a list" where
  "py_slice xs start stop =
     (let n = int (length xs);
          lo = (if start < 0 then max (start + n) 0 else min start n);
          hi = (if stop < 0 then max (stop + n) 0 else min stop n)
      in take (nat (hi - lo)) (drop (nat lo) xs))"

section \<open>Page\<close>

record embed_field =
  name :: string
  val :: string
  inline :: bool

record embed =
  title :: "string option"
  description :: "string option"
  embed_fields :: "embed_field list"

datatype attachment = Attachment string | File string

text \<open>
  The three attributes of a \<open>Page\<close>; \<open>None\<close> is the sentinel \<open>UNSET\<close>.
\<close>

record page =
  content :: "string option"
  embeds :: "embed list option"
  attachments :: "attachment list option"

definition embed_conflict :: string where
  "embed_conflict = ''Cannot set both `embed` and `embeds`.''"

definition attachment_conflict :: string where
  "attachment_conflict = ''Cannot set both `attachment` and `attachments`.''"

text \<open>
  \<open>Page.__init__\<close>. The singular arguments \<open>embed\<close> and \<open>attachment\<close> default to Python's
  \<open>None\<close> (here \<open>None\<close> as well); the others default to \<open>UNSET\<close>.
\<close>

definition Page_init ::
  "string option \<Rightarrow> embed option \<Rightarrow> embed list option \<Rightarrow>
   attachment option \<Rightarrow> attachment list option \<Rightarrow> py_error + page" where
  "Page_init content_arg embed_arg embeds_arg attachment_arg attachments_arg =
     (let self = \<lparr>content = content_arg, embeds = embeds_arg, attachments = attachments_arg\<rparr> in
      case (case embed_arg of
              None \<Rightarrow> Inr self
            | Some e \<Rightarrow>
                if embeds self \<noteq> None then Inl (ValueError embed_conflict)
                else Inr (self\<lparr>embeds := Some [e]\<rparr>)) of
        Inl err \<Rightarrow> Inl err
      | Inr self1 \<Rightarrow>
          (case attachment_arg of
             None \<Rightarrow> Inr self1
           | Some a \<Rightarrow>
               if attachments self1 \<noteq> None then Inl (ValueError attachment_conflict)
               else Inr (self1\<lparr>attachments := Some [a]\<rparr>)))"

datatype page_value = Content string | Embeds "embed list" | Attachments "attachment list"

text \<open>
  \<open>Page.unpack\<close>: the attributes that are not \<open>UNSET\<close>, in the order of \<open>__dict__\<close>
  (the order the attributes were first assigned in).
\<close>

definition unpack :: "page \<Rightarrow> (string \<times> page_value) list" where
  "unpack self =
     (case content self of None \<Rightarrow> [] | Some c \<Rightarrow> [(''content'', Content c)]) @
     (case embeds self of None \<Rightarrow> [] | Some es \<Rightarrow> [(''embeds'', Embeds es)]) @
     (case attachments self of None \<Rightarrow> [] | Some as \<Rightarrow> [(''attachments'', Attachments as)])"

section \<open>PaginatedView\<close>

text \<open>
  The attributes of a view, and the \<open>disabled\<close> flags of its two buttons.
\<close>

record 'a PaginatedView =
  data :: "'a list"
  index :: int
  per_page :: int
  previous_disabled :: bool
  next_disabled :: bool

text \<open>
  The constructor stores its arguments; the button decorators create the Previous
  button disabled and the Next button enabled.
\<close>

definition PaginatedView_init :: "'a list \<Rightarrow> int \<Rightarrow> int \<Rightarrow> 'a PaginatedView" where
  "PaginatedView_init data_arg starting_index per_page_arg =
     \<lparr>data = data_arg, index = starting_index, per_page = per_page_arg,
      previous_disabled = True, next_disabled = False\<rparr>"

definition get_page_data :: "'a PaginatedView \<Rightarrow> 'a list" where
  "get_page_data self = py_slice (data self) (index self) (index self + per_page self)"

text \<open>
  \<open>math.ceil(len(self.data) / self.per_page)\<close>: true division, then the ceiling. The
  quotient is taken exactly (a float holds it exactly enough for every list length
  below \<open>2 ^ 53\<close>).
\<close>

definition pages :: "'a PaginatedView \<Rightarrow> py_error + int" where
  "pages self =
     (if per_page self = 0 then Inl ZeroDivisionError
      else Inr \<lceil>real (length (data self)) / real_of_int (per_page self)\<rceil>)"

definition current_page :: "'a PaginatedView \<Rightarrow> py_error + int" where
  "current_page self =
     (if per_page self = 0 then Inl ZeroDivisionError
      else Inr (index self div per_page self + 1))"

definition update_buttons :: "'a PaginatedView \<Rightarrow> 'a PaginatedView" where
  "update_buttons self =
     self\<lparr>previous_disabled := index self \<le> 0,
          next_disabled := index self \<ge> int (length (data self)) - per_page self\<rparr>"

text \<open>
  \<open>update_page\<close> renders the view with the subclass's \<open>get_page\<close> and edits the
  message with the view and the unpacked page; an exception of \<open>get_page\<close> propagates.
\<close>

datatype 'a message_edit = Edit_message "'a PaginatedView" "(string \<times> page_value) list"

definition update_page ::
  "('a PaginatedView \<Rightarrow> py_error + page) \<Rightarrow> 'a PaginatedView \<Rightarrow> py_error + 'a message_edit" where
  "update_page get_page_impl self =
     (case get_page_impl self of
        Inl err \<Rightarrow> Inl err
      | Inr p \<Rightarrow> Inr (Edit_message self (unpack p)))"

text \<open>
  The two button callbacks: the new state of the view, and the outcome of the edit.
  The view keeps its new index and flags also when rendering raises.
\<close>

definition previous_page ::
  "('a PaginatedView \<Rightarrow> py_error + page) \<Rightarrow> 'a PaginatedView \<Rightarrow>
   'a PaginatedView \<times> (py_error + 'a message_edit)" where
  "previous_page get_page_impl self =
     (let self1 = self\<lparr>index := index self - per_page self\<rparr>;
          self2 = update_buttons self1
      in (self2, update_page get_page_impl self2))"

definition next_page ::
  "('a PaginatedView \<Rightarrow> py_error + page) \<Rightarrow> 'a PaginatedView \<Rightarrow>
   'a PaginatedView \<times> (py_error + 'a message_edit)" where
  "next_page get_page_impl self =
     (let self1 = self\<lparr>index := index self + per_page self\<rparr>;
          self2 = update_buttons self1
      in (self2, update_page get_page_impl self2))"

section \<open>Strings\<close>

definition nl :: string where
  "nl = [CHR 0x0A]"

text \<open>\<open>sep.join(xs)\<close>.\<close>

fun join :: "string \<Rightarrow> string list \<Rightarrow> string" where
  "join sep [] = []"
| "join sep [x] = x"
| "join sep (x # y # ys) = x @ sep @ join sep (y # ys)"

text \<open>\<open>str(i)\<close> of an integer, as an f-string formats it: decimal, with a minus sign.\<close>

definition digit_char :: "nat \<Rightarrow> char" where
  "digit_char d = char_of (48 + d)"

fun digits :: "nat \<Rightarrow> string" where
  "digits n = (if n < 10 then [digit_char n] else digits (n div 10) @ [digit_char (n mod 10)])"

definition str_int :: "int \<Rightarrow> string" where
  "str_int i = (if i < 0 then CHR ''-'' # digits (nat (- i)) else digits (nat i))"

text \<open>
  \<open>str.lower\<close> on the code points below 256: the letters \<open>A-Z\<close> and the upper case
  letters of Latin-1 (192 to 222, but not the multiplication sign 215) move up by 32.
\<close>

definition lower_char :: "char \<Rightarrow> char" where
  "lower_char c =
     (let n = (of_char c :: nat) in
      if (65 \<le> n \<and> n \<le> 90) \<or> (192 \<le> n \<and> n \<le> 222 \<and> n \<noteq> 215) then char_of (n + 32) else c)"

definition lower :: "string \<Rightarrow> string" where
  "lower s = map lower_char s"

text \<open>
  \<open>str.isdigit\<close>: a non-empty string of digit characters. Below 256 these are \<open>0-9\<close> and
  the superscripts two, three and one (178, 179, 185), which \<open>int\<close> does not accept:
  \<open>int\<close> of an \<open>isdigit\<close> string is its decimal value when every character is one of
  \<open>0-9\<close>, and raises \<open>ValueError\<close> otherwise.
\<close>

definition decimal_char :: "char \<Rightarrow> bool" where
  "decimal_char c = (48 \<le> (of_char c :: nat) \<and> (of_char c :: nat) \<le> 57)"

definition digit_like_char :: "char \<Rightarrow> bool" where
  "digit_like_char c = (decimal_char c \<or> (of_char c :: nat) \<in> {178, 179, 185})"

definition isdigit :: "string \<Rightarrow> bool" where
  "isdigit s = (s \<noteq> [] \<and> list_all digit_like_char s)"

definition decimal_value :: "string \<Rightarrow> int" where
  "decimal_value s = foldl (\<lambda>acc c. 10 * acc + (int (of_char c) - 48)) 0 s"

definition int_of_digits :: "string \<Rightarrow> py_error + int" where
  "int_of_digits s =
     (if list_all decimal_char s then Inr (decimal_value s)
      else Inl (ValueError (''invalid literal for int() with base 10: '' @ [CHR 0x27] @ s @ [CHR 0x27])))"

text \<open>\<open>a < b\<close> on two strings: lexicographic on the code points.\<close>

fun str_lt :: "string \<Rightarrow> string \<Rightarrow> bool" where
  "str_lt [] [] = False"
| "str_lt [] (y # ys) = True"
| "str_lt (x # xs) [] = False"
| "str_lt (x # xs) (y # ys) =
     (if (of_char x :: nat) < of_char y then True
      else if (of_char y :: nat) < of_char x then False
      else str_lt xs ys)"

section \<open>Experiments\<close>

text \<open>
  The \<open>TypedDict\<close>s \<open>Treatment\<close> and \<open>Experiment\<close>. \<open>kind\<close> is declared
  \<open>Literal["user", "guild"]\<close>; \<open>kind_title\<close> is \<open>str.title\<close> on these two values.
\<close>

datatype experiment_kind = User | Guild

fun kind_title :: "experiment_kind \<Rightarrow> string" where
  "kind_title User = ''User''"
| "kind_title Guild = ''Guild''"

record Treatment =
  treatment_id :: int
  treatment_label :: string

record Experiment =
  kind :: experiment_kind
  exp_id :: string
  label :: string
  exp_file :: string
  treatments :: "Treatment list"

text \<open>Of a \<open>DiscordBuild\<close> the command reads the experiments only.\<close>

record DiscordBuild =
  experiments :: "Experiment list"

text \<open>
  \<open>ExperimentEmbed.__init__\<close>: the title and the description are set by the
  constructor of \<open>discord.Embed\<close>, then \<open>add_field\<close> appends the Treatments field
  (\<open>inline\<close> is \<open>add_field\<close>'s default).
\<close>

definition ExperimentEmbed :: "Experiment \<Rightarrow> embed" where
  "ExperimentEmbed experiment =
     (let self =
        \<lparr>title = Some (label experiment),
         description = Some (join nl (filter (\<lambda>s. s \<noteq> [])
           [''ID: `'' @ exp_id experiment @ ''`'',
            ''Kind: '' @ kind_title (kind experiment),
            ''File: `'' @ exp_file experiment @ ''`''])),
         embed_fields = []\<rparr>
      in self\<lparr>embed_fields := embed_fields self @
           [\<lparr>name = ''Treatments'',
             val = join nl (map (\<lambda>t. ''- '' @ t)
               ([''Not Eligible'', ''Control Bucket''] @
                map (\<lambda>treatment. ''Treatment '' @ str_int (treatment_id treatment) @ '': ''
                                   @ treatment_label treatment)
                    (treatments experiment))),
             inline = True\<rparr>]\<rparr>)"

section \<open>Sorting the experiments\<close>

text \<open>
  \<open>ExperimentBrowserView.sorter\<close> returns an \<open>int\<close> or a \<open>str\<close>.
\<close>

datatype sort_key = KInt int | KStr string

definition sorter :: "Experiment \<Rightarrow> py_error + sort_key" where
  "sorter experiment =
     (let experiment_id = take (length ''yyyy-mm'') (exp_id experiment);
          key = filter (\<lambda>c. c \<noteq> CHR ''-'') experiment_id
      in if isdigit key then map_sum id KInt (int_of_digits key) else Inr (KStr key))"

text \<open>
  \<open>a < b\<close> on two keys. Python orders two integers and two strings, and raises
  \<open>TypeError\<close> for an integer and a string.
\<close>

fun key_lt :: "sort_key \<Rightarrow> sort_key \<Rightarrow> py_error + bool" where
  "key_lt (KInt a) (KInt b) = Inr (a < b)"
| "key_lt (KStr a) (KStr b) = Inr (str_lt a b)"
| "key_lt (KInt a) (KStr b) = Inl TypeError"
| "key_lt (KStr a) (KInt b) = Inl TypeError"

text \<open>Whether a key is an \<open>int\<close>.\<close>

fun is_int_key :: "sort_key \<Rightarrow> bool" where
  "is_int_key (KInt a) = True"
| "is_int_key (KStr a) = False"

text \<open>The integer of an \<open>int\<close> key (used for lists of \<open>int\<close> keys only).\<close>

fun int_of_key :: "sort_key \<Rightarrow> int" where
  "int_of_key (KInt a) = a"
| "int_of_key (KStr a) = 0"

text \<open>
  \<open>sorted(xs, key=f, reverse=r)\<close>. The keys are computed first, one call of \<open>f\<close> per
  element from left to right; the list is then sorted stably with \<open><\<close> on the keys,
  and any exception of \<open>f\<close> or of \<open><\<close> propagates. With \<open>reverse\<close> the list is
  reversed before and after the sort, which keeps equal keys in their original order.
  The stable sort is written as an insertion sort: an element goes in front of the
  first element that is not smaller than it.
\<close>

fun with_keys :: "('a \<Rightarrow> py_error + sort_key) \<Rightarrow> 'a list \<Rightarrow> py_error + (sort_key \<times> 'a) list" where
  "with_keys f [] = Inr []"
| "with_keys f (x # xs) =
     (case f x of
        Inl err \<Rightarrow> Inl err
      | Inr k \<Rightarrow> (case with_keys f xs of Inl err \<Rightarrow> Inl err | Inr ks \<Rightarrow> Inr ((k, x) # ks)))"

fun insert_by_key ::
  "(sort_key \<times> 'a) \<Rightarrow> (sort_key \<times> 'a) list \<Rightarrow> py_error + (sort_key \<times> 'a) list" where
  "insert_by_key x [] = Inr [x]"
| "insert_by_key x (y # ys) =
     (case key_lt (fst y) (fst x) of
        Inl err \<Rightarrow> Inl err
      | Inr b \<Rightarrow>
          if b then (case insert_by_key x ys of Inl err \<Rightarrow> Inl err | Inr zs \<Rightarrow> Inr (y # zs))
          else Inr (x # y # ys))"

fun sort_by_key :: "(sort_key \<times> 'a) list \<Rightarrow> py_error + (sort_key \<times> 'a) list" where
  "sort_by_key [] = Inr []"
| "sort_by_key (x # xs) =
     (case sort_by_key xs of Inl err \<Rightarrow> Inl err | Inr ys \<Rightarrow> insert_by_key x ys)"

definition sorted_py ::
  "('a \<Rightarrow> py_error + sort_key) \<Rightarrow> bool \<Rightarrow> 'a list \<Rightarrow> py_error + 'a list" where
  "sorted_py f reverse xs =
     (case with_keys f xs of
        Inl err \<Rightarrow> Inl err
      | Inr ks \<Rightarrow>
          (case sort_by_key (if reverse then rev ks else ks) of
             Inl err \<Rightarrow> Inl err
           | Inr ss \<Rightarrow> Inr (map snd (if reverse then rev ss else ss))))"

section \<open>ExperimentBrowserView\<close>

text \<open>
  \<open>ExperimentBrowserView.__init__\<close>: \<open>**kwargs\<close> can only carry \<open>starting_index\<close>
  (\<open>per_page\<close> is given by the constructor itself).
\<close>

definition ExperimentBrowserView_init ::
  "Experiment list \<Rightarrow> int \<Rightarrow> py_error + Experiment PaginatedView" where
  "ExperimentBrowserView_init data_arg starting_index =
     (case sorted_py sorter True data_arg of
        Inl err \<Rightarrow> Inl err
      | Inr sorted_data \<Rightarrow> Inr (PaginatedView_init sorted_data starting_index 20))"

text \<open>
  \<open>ExperimentBrowserView.get_page\<close>; \<open>discord.utils.escape_markdown\<close> is a parameter.
\<close>

definition get_page :: "(string \<Rightarrow> string) \<Rightarrow> Experiment PaginatedView \<Rightarrow> py_error + page" where
  "get_page escape_markdown self =
     (let experiments_on_page = get_page_data self in
      case current_page self of
        Inl err \<Rightarrow> Inl err
      | Inr cur \<Rightarrow>
          (case pages self of
             Inl err \<Rightarrow> Inl err
           | Inr count \<Rightarrow>
               Page_init None
                 (Some \<lparr>title = Some (''Page '' @ str_int cur @ ''/'' @ str_int count),
                        description = Some (join nl
                          (map (\<lambda>experiment.
                                  ''- ('' @ kind_title (kind experiment) @ '') `''
                                    @ exp_id experiment @ ''`'' @ nl
                                    @ ''  - '' @ escape_markdown (label experiment))
                               experiments_on_page)),
                        embed_fields = []\<rparr>)
                 None None None))"

section \<open>The experiments command\<close>

text \<open>
  What \<open>ctx.reply\<close> is called with: a text, an embed, or an unpacked page with a view.
\<close>

datatype reply =
  Reply_content string
| Reply_embed embed
| Reply_view "(string \<times> page_value) list" "Experiment PaginatedView"

text \<open>
  The \<open>for\<close> loop of the command over \<open>build["experiments"]\<close>: it stops at the first
  experiment that passes one of the two tests, and its \<open>else\<close> branch (here \<open>None\<close>)
  runs when no experiment does. \<open>fuzz.partial_ratio\<close> is the parameter \<open>ratio\<close>.
\<close>

fun find_experiment ::
  "(string \<Rightarrow> string \<Rightarrow> real) \<Rightarrow> string \<Rightarrow> Experiment list \<Rightarrow> Experiment option" where
  "find_experiment ratio experiment [] = None"
| "find_experiment ratio experiment (exp_rec # rest) =
     (if ratio (lower (label exp_rec)) experiment > 85 then Some exp_rec
      else if ratio (exp_id exp_rec) experiment > 85 then Some exp_rec
      else find_experiment ratio experiment rest)"

text \<open>
  The command, after \<open>get_build\<close> has returned the build. An argument that is \<open>None\<close>
  or the empty string is false in \<open>if experiment:\<close>.
\<close>

definition experiments_command ::
  "(string \<Rightarrow> string \<Rightarrow> real) \<Rightarrow> (string \<Rightarrow> string) \<Rightarrow> DiscordBuild \<Rightarrow> string option \<Rightarrow> py_error + reply" where
  "experiments_command ratio escape_markdown b experiment =
     (if experiment \<noteq> None \<and> experiment \<noteq> Some [] then
        (let experiment1 = lower (the experiment) in
         case find_experiment ratio experiment1 (experiments b) of
           None \<Rightarrow> Inr (Reply_content ''No such experiment found.'')
         | Some exp_rec \<Rightarrow> Inr (Reply_embed (ExperimentEmbed exp_rec)))
      else
        (case ExperimentBrowserView_init (experiments b) 0 of
           Inl err \<Rightarrow> Inl err
         | Inr view \<Rightarrow>
             (case get_page escape_markdown view of
                Inl err \<Rightarrow> Inl err
              | Inr p \<Rightarrow> Inr (Reply_view (unpack p) view))))"

section \<open>Navigation with the Previous button gated\<close>

text \<open>
  The states a view reaches from index 0 by any presses of Next, and by presses of
  Previous while the Previous button is enabled (a disabled button cannot be pressed).
  Next is not gated: \<open>next_page\<close> may run at any index.
\<close>

inductive previous_gated_reachable :: "'a list \<Rightarrow> int \<Rightarrow> 'a PaginatedView \<Rightarrow> bool"
  for xs :: "'a list" and p :: int where
  start: "previous_gated_reachable xs p (PaginatedView_init xs 0 p)"
| press_next:
    "previous_gated_reachable xs p self \<Longrightarrow>
     previous_gated_reachable xs p (fst (next_page g self))"
| press_previous:
    "previous_gated_reachable xs p self \<Longrightarrow> \<not> previous_disabled self \<Longrightarrow>
     previous_gated_reachable xs p (fst (previous_page g self))"

section \<open>List objects and the constructor's argument\<close>

text \<open>
  The list objects of the program, by address. \<open>sorted\<close> copies its argument into a
  new list object and sorts the copy; when the sort raises, the copy is dropped.
  \<open>PaginatedView.__init__\<close> keeps a reference to the list it is given.
\<close>

type_synonym heap = "Experiment list list"

definition sorted_on_heap :: "heap \<Rightarrow> nat \<Rightarrow> heap \<times> (py_error + nat)" where
  "sorted_on_heap h a =
     (case sorted_py sorter True (h ! a) of
        Inl err \<Rightarrow> (h, Inl err)
      | Inr ys \<Rightarrow> (h @ [ys], Inr (length h)))"

text \<open>
  The constructor on the heap: the new heap, and the address held by \<open>self.data\<close>
  together with the view.
\<close>

definition ExperimentBrowserView_init_on_heap ::
  "heap \<Rightarrow> nat \<Rightarrow> int \<Rightarrow> heap \<times> (py_error + nat \<times> Experiment PaginatedView)" where
  "ExperimentBrowserView_init_on_heap h a starting_index =
     (case sorted_on_heap h a of
        (h1, Inl err) \<Rightarrow> (h1, Inl err)
      | (h1, Inr r) \<Rightarrow> (h1, Inr (r, PaginatedView_init (h1 ! r) starting_index 20)))"

section \<open>The specification's reading of the page slice\<close>

text \<open>
  The slice as the specification words it: the cursor is clamped to
  \<open>0 .. len(items) - 1\<close> before the read, and an empty dataset gives the empty sequence.
\<close>

definition clamp :: "int \<Rightarrow> int \<Rightarrow> int \<Rightarrow> int" where
  "clamp x lo hi = max lo (min x hi)"

definition currentSlice_spec :: "'a list \<Rightarrow> int \<Rightarrow> int \<Rightarrow> 'a list" where
  "currentSlice_spec items cursor pageSize =
     (if items = [] then []
      else py_slice items (clamp cursor 0 (int (length items) - 1))
                          (clamp cursor 0 (int (length items) - 1) + pageSize))"

section \<open>Example data\<close>

definition exp_2024_02 :: Experiment where
  "exp_2024_02 =
     \<lparr>kind = User, exp_id = ''2024-02-x'', label = ''Foo Bar'', exp_file = [],
      treatments = [\<lparr>treatment_id = 1, treatment_label = ''Enabled''\<rparr>]\<rparr>"

definition exp_2023_11 :: Experiment where
  "exp_2023_11 =
     \<lparr>kind = Guild, exp_id = ''2023-11-y'', label = ''Baz'', exp_file = ''a.js'',
      treatments = []\<rparr>"

definition exp_bad_id :: Experiment where
  "exp_bad_id =
     \<lparr>kind = User, exp_id = ''bad-id'', label = ''Qux'', exp_file = ''b.js'',
      treatments = []\<rparr>"

text \<open>A scorer that gives every pair of strings the score 85.\<close>

definition ratio_85 :: "string \<Rightarrow> string \<Rightarrow> real" where
  "ratio_85 a b = 85"

text \<open>A scorer that gives equal strings the score 100 and all others the score 0.\<close>

definition ratio_equal :: "string \<Rightarrow> string \<Rightarrow> real" where
  "ratio_equal a b = (if a = b then 100 else 0)"

text \<open>A third experiment with the label of the first.\<close>

definition exp_2022_05 :: Experiment where
  "exp_2022_05 =
     \<lparr>kind = Guild, exp_id = ''2022-05-z'', label = ''Foo Bar'', exp_file = ''c.js'',
      treatments = []\<rparr>"

section \<open>Control enablement\<close>


section \<open>The page slice\<close>

lemma py_slice_nonneg:
  "0 \<le> start \<Longrightarrow> 0 \<le> len \<Longrightarrow> py_slice xs start (start + len) = take (nat len) (drop (nat start) xs)"
  by (auto simp: py_slice_def Let_def min_def max_def)

lemma py_slice_past_end:
  "int (length xs) \<le> start \<Longrightarrow> py_slice xs start stop = []"
  by (auto simp: py_slice_def Let_def min_def max_def)

text \<open>
  C1, as amended. For a cursor inside the dataset (\<open>0 \<le> index < len(data)\<close>),
  \<open>get_page_data\<close> is the slice the specification describes, and for a page size of
  at least 1 its length is the smaller of the page size and the number of items from
  the cursor on. For an empty dataset it is empty. It does not clamp: for a cursor at
  or past the end of the dataset it is empty.
\<close>

theorem get_page_data_slice:
  "(0 \<le> index self \<and> index self < int (length (data self)) \<longrightarrow>
      get_page_data self = currentSlice_spec (data self) (index self) (per_page self)
      \<and> (1 \<le> per_page self \<longrightarrow>
           int (length (get_page_data self)) =
             min (per_page self)
                 (int (length (data self)) - clamp (index self) 0 (int (length (data self)) - 1))))
   \<and> (data self = [] \<longrightarrow> get_page_data self = [])
   \<and> (int (length (data self)) \<le> index self \<longrightarrow> get_page_data self = [])"
proof (intro conjI impI)
  assume b: "0 \<le> index self \<and> index self < int (length (data self))"
  then have c: "clamp (index self) 0 (int (length (data self)) - 1) = index self"
    by (simp add: clamp_def)
  from b have ne: "data self \<noteq> []" by auto
  show "get_page_data self = currentSlice_spec (data self) (index self) (per_page self)"
    using ne by (simp add: get_page_data_def currentSlice_spec_def c)
  assume p: "1 \<le> per_page self"
  have "get_page_data self = take (nat (per_page self)) (drop (nat (index self)) (data self))"
    unfolding get_page_data_def using b p by (simp add: py_slice_nonneg)
  then show "int (length (get_page_data self)) =
      min (per_page self) (int (length (data self)) - clamp (index self) 0 (int (length (data self)) - 1))"
    using b p by (simp add: c) linarith
next
  assume "data self = []"
  then show "get_page_data self = []" by (simp add: get_page_data_def py_slice_def)
next
  assume "int (length (data self)) \<le> index self"
  then show "get_page_data self = []" by (simp add: get_page_data_def py_slice_past_end)
qed

theorem get_page_data_slice_witness:
  "0 \<le> index (PaginatedView_init [exp_2024_02, exp_2023_11, exp_bad_id] 1 20)
   \<and> index (PaginatedView_init [exp_2024_02, exp_2023_11, exp_bad_id] 1 20)
        < int (length (data (PaginatedView_init [exp_2024_02, exp_2023_11, exp_bad_id] 1 20)))
   \<and> 1 \<le> per_page (PaginatedView_init [exp_2024_02, exp_2023_11, exp_bad_id] 1 20)
   \<and> get_page_data (PaginatedView_init [exp_2024_02, exp_2023_11, exp_bad_id] 1 20)
        = [exp_2023_11, exp_bad_id]
   \<and> currentSlice_spec [exp_2024_02, exp_2023_11, exp_bad_id] 1 20 = [exp_2023_11, exp_bad_id]
   \<and> int (length (get_page_data (PaginatedView_init [exp_2024_02, exp_2023_11, exp_bad_id] 1 20)))
        = 2
   \<and> data (PaginatedView_init ([] :: Experiment list) (- 20) 20) = []
   \<and> get_page_data (PaginatedView_init ([] :: Experiment list) (- 20) 20) = []
   \<and> int (length (data (PaginatedView_init [exp_2024_02, exp_2023_11] 40 20)))
        \<le> index (PaginatedView_init [exp_2024_02, exp_2023_11] 40 20)
   \<and> get_page_data (PaginatedView_init [exp_2024_02, exp_2023_11] 40 20) = []"
  using get_page_data_slice [of "PaginatedView_init [exp_2024_02, exp_2023_11, exp_bad_id] 1 20"]
    get_page_data_slice [of "PaginatedView_init ([] :: Experiment list) (- 20) 20"]
    get_page_data_slice [of "PaginatedView_init [exp_2024_02, exp_2023_11] 40 20"]
  by (simp add: PaginatedView_init_def clamp_def currentSlice_spec_def py_slice_def)

text \<open>
  C1 as stated fails. A dataset of one experiment is browsed with 20 per page; the Next
  button is enabled at the start, and pressing it moves the index to 20. There
  \<open>get_page_data\<close> is empty, where the clamped slice holds the experiment and the
  stated length is 1.
\<close>

theorem get_page_data_over_advance_counterexample:
  "get_page_data (fst (next_page (get_page id) (PaginatedView_init [exp_2024_02] 0 20))) = []
   \<and> currentSlice_spec [exp_2024_02]
        (index (fst (next_page (get_page id) (PaginatedView_init [exp_2024_02] 0 20)))) 20 = [exp_2024_02]
   \<and> int (length (get_page_data (fst (next_page (get_page id) (PaginatedView_init [exp_2024_02] 0 20)))))
        \<noteq> min 20 (int (length [exp_2024_02])
             - clamp (index (fst (next_page (get_page id) (PaginatedView_init [exp_2024_02] 0 20)))) 0
                 (int (length [exp_2024_02]) - 1))"
  by (simp add: next_page_def update_buttons_def PaginatedView_init_def get_page_data_def
      py_slice_def currentSlice_spec_def clamp_def Let_def)

section \<open>The current page number\<close>

text \<open>
  With the Previous button gated the index stays a non-negative multiple of the page
  size, and the Previous button is enabled only at a positive index.
\<close>

lemma previous_gated_reachable_invariant:
  assumes "previous_gated_reachable xs p self" and "1 \<le> p"
  shows "data self = xs \<and> per_page self = p \<and> 0 \<le> index self \<and> p dvd index self
         \<and> (\<not> previous_disabled self \<longrightarrow> 0 < index self)"
  using assms
proof (induction rule: previous_gated_reachable.induct)
  case start
  then show ?case by (simp add: PaginatedView_init_def)
next
  case (press_next self g)
  then show ?case
    by (simp add: next_page_def update_buttons_def Let_def)
next
  case (press_previous self g)
  then have pos: "0 < index self" and dv: "p dvd index self" and pp: "per_page self = p"
    and d: "data self = xs"
    by simp_all
  from dv pos \<open>1 \<le> p\<close> have "p \<le> index self"
    by (simp add: zdvd_imp_le)
  with dv pp d show ?case
    by (simp add: previous_page_def update_buttons_def Let_def)
qed

text \<open>
  C4, as amended. In every state reached from index 0 by any sequence of \<open>next_page\<close>
  calls and of \<open>previous_page\<close> calls made while the Previous button is enabled, with
  a page size of at least 1, \<open>current_page\<close> is at least 1. \<open>previous_page\<close> on the
  first page leaves the Previous button disabled; it moves the index to
  \<open>- per_page\<close>, where \<open>current_page\<close> is 0.
\<close>

theorem current_page_at_least_1_previous_gated:
  "(previous_gated_reachable xs p self \<and> 1 \<le> p \<longrightarrow>
      (\<exists>n. current_page self = Inr n \<and> 1 \<le> n))
   \<and> (0 \<le> p \<longrightarrow> previous_disabled (fst (previous_page g (PaginatedView_init xs 0 p))))
   \<and> (1 \<le> p \<longrightarrow> current_page (fst (previous_page g (PaginatedView_init xs 0 p))) = Inr 0)"
proof (intro conjI impI)
  assume a: "previous_gated_reachable xs p self \<and> 1 \<le> p"
  then have inv: "per_page self = p" "0 \<le> index self"
    using previous_gated_reachable_invariant [of xs p self] by simp_all
  from a inv have "0 \<le> index self div per_page self"
    by (simp add: pos_imp_zdiv_nonneg_iff)
  with a inv show "\<exists>n. current_page self = Inr n \<and> 1 \<le> n"
    by (simp add: current_page_def)
next
  assume "0 \<le> p"
  then show "previous_disabled (fst (previous_page g (PaginatedView_init xs 0 p)))"
    by (simp add: previous_page_def update_buttons_def PaginatedView_init_def Let_def)
next
  assume p: "1 \<le> p"
  then have "- p div p = - 1"
    by (simp add: zdiv_zminus1_eq_if)
  with p show "current_page (fst (previous_page g (PaginatedView_init xs 0 p))) = Inr 0"
    by (simp add: previous_page_def update_buttons_def PaginatedView_init_def Let_def
        current_page_def)
qed

text \<open>
  The theorem at a state past the end of the data: two presses of Next on one
  experiment with 20 per page, the second while the Next button is disabled, give
  index 40 and \<open>current_page\<close> 3.
\<close>

theorem current_page_at_least_1_previous_gated_witness:
  "previous_gated_reachable [exp_2024_02] 20
     (fst (next_page (get_page id) (fst (next_page (get_page id)
        (PaginatedView_init [exp_2024_02] 0 20)))))
   \<and> (1::int) \<le> 20
   \<and> next_disabled (fst (next_page (get_page id) (PaginatedView_init [exp_2024_02] 0 20)))
   \<and> index (fst (next_page (get_page id) (fst (next_page (get_page id)
        (PaginatedView_init [exp_2024_02] 0 20))))) = 40
   \<and> current_page (fst (next_page (get_page id) (fst (next_page (get_page id)
        (PaginatedView_init [exp_2024_02] 0 20))))) = Inr 3
   \<and> (1::int) \<le> 3
   \<and> previous_disabled (fst (previous_page (get_page id)
        (PaginatedView_init [exp_2024_02] 0 20)))
   \<and> current_page (fst (previous_page (get_page id)
        (PaginatedView_init [exp_2024_02] 0 20))) = Inr 0"
proof -
  let ?s0 = "PaginatedView_init [exp_2024_02] 0 20"
  let ?s1 = "fst (next_page (get_page id) ?s0)"
  let ?s2 = "fst (next_page (get_page id) ?s1)"
  have r: "previous_gated_reachable [exp_2024_02] 20 ?s2"
    by (intro previous_gated_reachable.press_next previous_gated_reachable.start)
  have d: "next_disabled ?s1"
    by (simp add: next_page_def update_buttons_def PaginatedView_init_def Let_def)
  have i: "index ?s2 = 40"
    by (simp add: next_page_def update_buttons_def PaginatedView_init_def Let_def)
  have c: "current_page ?s2 = Inr 3"
    by (simp add: next_page_def update_buttons_def PaginatedView_init_def Let_def current_page_def)
  show ?thesis
    using r d i c
      current_page_at_least_1_previous_gated [of "[exp_2024_02]" 20 ?s2 "get_page id"]
    by simp
qed

text \<open>
  C4 as stated fails: the callback itself does not look at the button. On the first
  page of a view with 20 per page, \<open>previous_page\<close> moves the index to -20 and
  \<open>current_page\<close> is 0.
\<close>

theorem current_page_below_1_counterexample:
  "current_page (fst (previous_page (get_page id) (PaginatedView_init [exp_2024_02] 0 20))) = Inr 0
   \<and> index (fst (previous_page (get_page id) (PaginatedView_init [exp_2024_02] 0 20))) = - 20"
  by (simp add: previous_page_def update_buttons_def PaginatedView_init_def Let_def current_page_def)

section \<open>Past the last page\<close>

text \<open>
  The page count is the ceiling of an integer quotient, and a view at a multiple of
  its page size shows \<open>current_page = pages\<close> exactly when its index is inside the
  dataset and the page starting there reaches the end of it.
\<close>

lemma neg_div_backward:
  fixes p k n :: int
  assumes "0 < p" and "p * k < n" and "n \<le> p * k + p"
  shows "(- n) div p = - k - 1"
proof (rule int_div_pos_eq [where r = "p * k + p - n"])
  show "- n = p * (- k - 1) + (p * k + p - n)"
    by (simp add: algebra_simps)
  show "0 \<le> p * k + p - n" using assms by simp
  show "p * k + p - n < p" using assms by simp
qed

lemma neg_div_forward:
  fixes p k n :: int
  assumes "0 < p" and "(- n) div p = - k - 1"
  shows "p * k < n \<and> n \<le> p * k + p"
proof -
  have "- n = p * ((- n) div p) + (- n) mod p" by simp
  with assms(2) have e: "- n = p * (- k - 1) + (- n) mod p" by simp
  have "p * (- k - 1) = - (p * k) - p" by (simp add: algebra_simps)
  with e have e2: "n = p * k + p - (- n) mod p" by simp
  have "0 \<le> (- n) mod p" "(- n) mod p < p" using assms(1) by simp_all
  with e2 show ?thesis by linarith
qed

lemma pages_ceiling_div:
  assumes "1 \<le> per_page self"
  shows "pages self = Inr (- ((- int (length (data self))) div per_page self))"
proof -
  have "\<lceil>real (length (data self)) / real_of_int (per_page self)\<rceil>
        = \<lceil>real_of_int (int (length (data self))) / real_of_int (per_page self)\<rceil>"
    by simp
  also have "\<dots> = - ((- int (length (data self))) div per_page self)"
    by (simp only: ceiling_divide_eq_div)
  finally show ?thesis using assms by (simp add: pages_def)
qed

lemma on_last_page_iff:
  assumes "1 \<le> per_page self" and "0 \<le> index self" and "per_page self dvd index self"
  shows "current_page self = pages self \<longleftrightarrow>
         index self < int (length (data self))
         \<and> int (length (data self)) \<le> index self + per_page self"
proof -
  let ?p = "per_page self" and ?n = "int (length (data self))"
  from assms(3) obtain k where k: "index self = ?p * k" ..
  have p0: "0 < ?p" using assms(1) by simp
  have cur: "index self div ?p = k" using k p0 by simp
  have "(k + 1 = - ((- ?n) div ?p)) \<longleftrightarrow> (?p * k < ?n \<and> ?n \<le> ?p * k + ?p)"
  proof
    assume "k + 1 = - ((- ?n) div ?p)"
    then have "(- ?n) div ?p = - k - 1" by simp
    from neg_div_forward [OF p0 this] show "?p * k < ?n \<and> ?n \<le> ?p * k + ?p" .
  next
    assume "?p * k < ?n \<and> ?n \<le> ?p * k + ?p"
    then have "(- ?n) div ?p = - k - 1"
      using neg_div_backward [OF p0, of k ?n] by simp
    then show "k + 1 = - ((- ?n) div ?p)" by simp
  qed
  with p0 cur show ?thesis
    by (simp add: current_page_def pages_ceiling_div [OF assms(1)] k)
qed

lemma pages_45_by_20: "pages (PaginatedView_init (replicate 45 (0::nat)) 0 20) = Inr 3"
  by (simp add: pages_ceiling_div PaginatedView_init_def)

text \<open>
  C7. The view is on its last page when the index is inside the dataset and the page
  starting there reaches the end of it. For a non-empty dataset and a page size of at
  least 1, \<open>next_page\<close> from there leaves the Next button disabled and the page data
  empty, and a second \<open>next_page\<close> gives the same page data again.
\<close>

theorem next_page_on_last_page:
  assumes "data self \<noteq> []" and "1 \<le> per_page self" and "0 \<le> index self"
    and "index self < int (length (data self))"
    and "int (length (data self)) \<le> index self + per_page self"
  shows "next_disabled (fst (next_page g self))
         \<and> next_disabled (fst (next_page g (fst (next_page g self))))
         \<and> get_page_data (fst (next_page g self)) = []
         \<and> get_page_data (fst (next_page g (fst (next_page g self))))
             = get_page_data (fst (next_page g self))"
proof -
  let ?s1 = "fst (next_page g self)"
  let ?s2 = "fst (next_page g ?s1)"
  have s1: "index ?s1 = index self + per_page self" "data ?s1 = data self"
    "per_page ?s1 = per_page self"
    by (simp_all add: next_page_def update_buttons_def Let_def)
  have s2: "index ?s2 = index self + per_page self + per_page self" "data ?s2 = data self"
    by (simp_all add: next_page_def update_buttons_def Let_def)
  have d1: "next_disabled ?s1" and d2: "next_disabled ?s2"
    using assms by (simp_all add: next_page_def update_buttons_def Let_def)
  have e1: "get_page_data ?s1 = []"
    unfolding get_page_data_def using assms s1 by (simp add: py_slice_past_end)
  have e2: "get_page_data ?s2 = []"
    unfolding get_page_data_def using assms s2 by (simp add: py_slice_past_end)
  from d1 d2 e1 e2 show ?thesis by simp
qed

theorem next_page_on_last_page_witness:
  "data (PaginatedView_init [exp_2024_02, exp_2023_11, exp_bad_id] 2 2) \<noteq> []
   \<and> 1 \<le> per_page (PaginatedView_init [exp_2024_02, exp_2023_11, exp_bad_id] 2 2)
   \<and> 0 \<le> index (PaginatedView_init [exp_2024_02, exp_2023_11, exp_bad_id] 2 2)
   \<and> index (PaginatedView_init [exp_2024_02, exp_2023_11, exp_bad_id] 2 2)
        < int (length (data (PaginatedView_init [exp_2024_02, exp_2023_11, exp_bad_id] 2 2)))
   \<and> get_page_data (PaginatedView_init [exp_2024_02, exp_2023_11, exp_bad_id] 2 2) = [exp_bad_id]
   \<and> next_disabled (fst (next_page (get_page id)
         (PaginatedView_init [exp_2024_02, exp_2023_11, exp_bad_id] 2 2)))
   \<and> get_page_data (fst (next_page (get_page id) (fst (next_page (get_page id)
         (PaginatedView_init [exp_2024_02, exp_2023_11, exp_bad_id] 2 2)))))
       = get_page_data (fst (next_page (get_page id)
         (PaginatedView_init [exp_2024_02, exp_2023_11, exp_bad_id] 2 2)))"
proof -
  let ?s = "PaginatedView_init [exp_2024_02, exp_2023_11, exp_bad_id] 2 2"
  have h: "data ?s \<noteq> []" "1 \<le> per_page ?s" "0 \<le> index ?s"
    "index ?s < int (length (data ?s))" "int (length (data ?s)) \<le> index ?s + per_page ?s"
    by (simp_all add: PaginatedView_init_def)
  have g: "get_page_data ?s = [exp_bad_id]"
    by (simp add: PaginatedView_init_def get_page_data_def py_slice_def)
  from h g next_page_on_last_page [OF h, of "get_page id"] show ?thesis by simp
qed

section \<open>The empty dataset\<close>

text \<open>
  C9. For an empty list of experiments the view has \<open>pages\<close> 0 and \<open>current_page\<close> 1,
  and its page is titled \<open>Page 1/0\<close>.
\<close>

theorem empty_dataset_page_1_of_0:
  "ExperimentBrowserView_init [] 0 = Inr (PaginatedView_init [] 0 20)
   \<and> pages (PaginatedView_init ([] :: Experiment list) 0 20) = Inr 0
   \<and> current_page (PaginatedView_init ([] :: Experiment list) 0 20) = Inr 1
   \<and> get_page escape_markdown (PaginatedView_init [] 0 20) =
       Inr \<lparr>content = None,
            embeds = Some [\<lparr>title = Some ''Page 1/0'', description = Some [], embed_fields = []\<rparr>],
            attachments = None\<rparr>"
proof -
  have i: "ExperimentBrowserView_init [] 0 = Inr (PaginatedView_init [] 0 20)"
    by (simp add: ExperimentBrowserView_init_def sorted_py_def)
  have p: "pages (PaginatedView_init ([] :: Experiment list) 0 20) = Inr 0"
    by (simp add: pages_def PaginatedView_init_def)
  have c: "current_page (PaginatedView_init ([] :: Experiment list) 0 20) = Inr 1"
    by (simp add: current_page_def PaginatedView_init_def)
  have d: "get_page_data (PaginatedView_init ([] :: Experiment list) 0 20) = []"
    by (simp add: get_page_data_def py_slice_def PaginatedView_init_def)
  have s: "str_int 1 = ''1''" "str_int 0 = ''0''"
    by code_simp+
  have g: "get_page escape_markdown (PaginatedView_init [] 0 20) =
       Inr \<lparr>content = None,
            embeds = Some [\<lparr>title = Some ''Page 1/0'', description = Some [], embed_fields = []\<rparr>],
            attachments = None\<rparr>"
    by (simp add: get_page_def p c d s Page_init_def)
  from i p c g show ?thesis by simp
qed

text \<open>The same two values for every view over an empty list that stands at index 0.\<close>

lemma pages_current_page_empty:
  "data self = [] \<Longrightarrow> index self = 0 \<Longrightarrow> per_page self \<noteq> 0 \<Longrightarrow>
   pages self = Inr 0 \<and> current_page self = Inr 1"
  by (simp add: pages_def current_page_def)

section \<open>Page construction\<close>

text \<open>
  C6. \<open>Page\<close> with both \<open>attachment\<close> and \<open>attachments\<close> raises \<open>ValueError\<close>, the
  conflict error of the module (with the message of the embed conflict when \<open>embed\<close> and
  \<open>embeds\<close> are both given as well, since that test comes first), and so does \<open>Page\<close>
  with both \<open>embed\<close> and \<open>embeds\<close>. Without \<open>attachment\<close> and \<open>attachments\<close>,
  \<open>unpack\<close> has no key \<open>attachments\<close>; without \<open>embed\<close> and \<open>embeds\<close> it has no
  key \<open>embeds\<close>. A singular argument alone becomes a list of one element.
\<close>

theorem Page_conflicting_arguments:
  "Page_init c e es (Some a) (Some as) =
     Inl (ValueError (if e \<noteq> None \<and> es \<noteq> None then embed_conflict else attachment_conflict))
   \<and> Page_init c (Some e1) (Some es1) a1 as1 = Inl (ValueError embed_conflict)
   \<and> (\<forall>p. Page_init c e es None None = Inr p \<longrightarrow> ''attachments'' \<notin> fst ` set (unpack p))
   \<and> (\<forall>p. Page_init c None None a1 as1 = Inr p \<longrightarrow> ''embeds'' \<notin> fst ` set (unpack p))
   \<and> Page_init c None None (Some a) None = Inr \<lparr>content = c, embeds = None, attachments = Some [a]\<rparr>
   \<and> Page_init c (Some e1) None None None = Inr \<lparr>content = c, embeds = Some [e1], attachments = None\<rparr>"
proof (intro conjI allI impI)
  show "Page_init c e es (Some a) (Some as) =
     Inl (ValueError (if e \<noteq> None \<and> es \<noteq> None then embed_conflict else attachment_conflict))"
    by (cases e; cases es) (simp_all add: Page_init_def)
  show "Page_init c (Some e1) (Some es1) a1 as1 = Inl (ValueError embed_conflict)"
    by (simp add: Page_init_def)
  show "''attachments'' \<notin> fst ` set (unpack p)" if "Page_init c e es None None = Inr p" for p
    using that by (cases e; cases es; cases c) (auto simp: Page_init_def unpack_def)
  show "''embeds'' \<notin> fst ` set (unpack p)" if "Page_init c None None a1 as1 = Inr p" for p
    using that by (cases a1; cases as1; cases c) (auto simp: Page_init_def unpack_def)
  show "Page_init c None None (Some a) None = Inr \<lparr>content = c, embeds = None, attachments = Some [a]\<rparr>"
    by (simp add: Page_init_def)
  show "Page_init c (Some e1) None None None = Inr \<lparr>content = c, embeds = Some [e1], attachments = None\<rparr>"
    by (simp add: Page_init_def)
qed

theorem Page_conflicting_arguments_witness:
  "Page_init (Some ''text'') None None None None =
      Inr \<lparr>content = Some ''text'', embeds = None, attachments = None\<rparr>
   \<and> unpack \<lparr>content = Some ''text'', embeds = None, attachments = None\<rparr>
        = [(''content'', Content ''text'')]
   \<and> ''attachments'' \<notin> fst ` set (unpack \<lparr>content = Some ''text'', embeds = None, attachments = None\<rparr>)
   \<and> ''embeds'' \<notin> fst ` set (unpack \<lparr>content = Some ''text'', embeds = None, attachments = None\<rparr>)
   \<and> Page_init (Some ''text'') None None (Some (File ''a.png'')) (Some [File ''b.png''])
        = Inl (ValueError attachment_conflict)"
proof -
  have i: "Page_init (Some ''text'') None None None None =
      Inr \<lparr>content = Some ''text'', embeds = None, attachments = None\<rparr>"
    by (simp add: Page_init_def)
  have u: "unpack \<lparr>content = Some ''text'', embeds = None, attachments = None\<rparr>
        = [(''content'', Content ''text'')]"
    by (simp add: unpack_def)
  from i u Page_conflicting_arguments [of "Some ''text''" None None "File ''a.png''" "[File ''b.png'']"
      "\<lparr>title = None, description = None, embed_fields = []\<rparr>" "[]" None None]
  show ?thesis by simp
qed

section \<open>Looking an experiment up\<close>

text \<open>The loop of the command returns the first experiment that passes one of its tests.\<close>

lemma find_experiment_find:
  "find_experiment ratio q xs =
     List.find (\<lambda>ex. 85 < ratio (lower (label ex)) q \<or> 85 < ratio (exp_id ex) q) xs"
  by (induction xs) auto

text \<open>
  C3, as amended. For a non-empty query the command goes through the experiments in
  the order of the build and replies with the detail embed of the first one whose
  score against the lowercased label or against the id, taken with the lowercased
  query, is strictly greater than 85; when there is none it replies with the text
  \<open>No such experiment found.\<close> and no view.
\<close>

theorem experiments_lookup_first_above_85:
  assumes "q \<noteq> []"
  shows "experiments_command ratio escape_markdown b (Some q) =
     Inr (case List.find (\<lambda>ex. 85 < ratio (lower (label ex)) (lower q)
                               \<or> 85 < ratio (exp_id ex) (lower q)) (experiments b) of
            None \<Rightarrow> Reply_content ''No such experiment found.''
          | Some ex \<Rightarrow> Reply_embed (ExperimentEmbed ex))"
  using assms
  by (simp add: experiments_command_def find_experiment_find Let_def split: option.splits)

theorem experiments_lookup_first_above_85_witness:
  "''Foo Bar'' \<noteq> []
   \<and> experiments_command ratio_equal id
        \<lparr>experiments = [exp_2023_11, exp_2024_02, exp_2022_05]\<rparr> (Some ''Foo Bar'')
      = Inr (Reply_embed (ExperimentEmbed exp_2024_02))"
proof -
  have l: "lower ''Foo Bar'' = ''foo bar''" "lower ''Baz'' = ''baz''"
    by code_simp+
  have n: "''Foo Bar'' \<noteq> []" by simp
  show ?thesis
    using experiments_lookup_first_above_85 [OF n, of ratio_equal id
        "\<lparr>experiments = [exp_2023_11, exp_2024_02, exp_2022_05]\<rparr>"]
    by (simp add: l exp_2023_11_def exp_2024_02_def ratio_equal_def)
qed

text \<open>
  C3 as stated fails at the score 85 itself: with a scorer that returns 85 the label
  scores 85 or higher, and the command replies that no experiment was found.
\<close>

theorem experiments_lookup_score_85_counterexample:
  "85 \<le> ratio_85 (lower (label exp_2024_02)) (lower ''foo bar'')
   \<and> experiments_command ratio_85 id \<lparr>experiments = [exp_2024_02]\<rparr> (Some ''foo bar'')
       = Inr (Reply_content ''No such experiment found.'')"
  by (simp add: experiments_command_def ratio_85_def Let_def)

section \<open>Sorting the experiments: the keys\<close>

text \<open>
  The sort raises nothing but \<open>TypeError\<close>, it keeps the elements, and it succeeds
  only on keys of one type: two keys of different types are compared at some point,
  whatever the order of the list.
\<close>

lemma key_lt_Inl: "key_lt a b = Inl err \<Longrightarrow> err = TypeError"
  by (cases a; cases b) simp_all

lemma key_lt_Inr_same_type: "key_lt a b = Inr r \<Longrightarrow> is_int_key a = is_int_key b"
  by (cases a; cases b) simp_all

lemma insert_by_key_Inl: "insert_by_key x ys = Inl err \<Longrightarrow> err = TypeError"
proof (induction ys)
  case Nil
  then show ?case by simp
next
  case (Cons y ys)
  show ?case
  proof (cases "key_lt (fst y) (fst x)")
    case (Inl e)
    with Cons.prems key_lt_Inl [OF Inl] show ?thesis by simp
  next
    case (Inr b)
    show ?thesis
    proof (cases b)
      case True
      with Inr Cons.prems have "insert_by_key x ys = Inl err"
        by (cases "insert_by_key x ys") simp_all
      then show ?thesis by (rule Cons.IH)
    next
      case False
      with Inr Cons.prems show ?thesis by simp
    qed
  qed
qed

lemma sort_by_key_Inl: "sort_by_key ks = Inl err \<Longrightarrow> err = TypeError"
proof (induction ks)
  case Nil
  then show ?case by simp
next
  case (Cons k ks)
  show ?case
  proof (cases "sort_by_key ks")
    case (Inl e)
    with Cons.prems have "e = err" by simp
    with Inl Cons.IH show ?thesis by simp
  next
    case (Inr ys)
    with Cons.prems have "insert_by_key k ys = Inl err" by simp
    then show ?thesis by (rule insert_by_key_Inl)
  qed
qed

lemma insert_by_key_set: "insert_by_key x ys = Inr zs \<Longrightarrow> set zs = insert x (set ys)"
proof (induction ys arbitrary: zs)
  case Nil
  then show ?case by auto
next
  case (Cons y ys)
  show ?case
  proof (cases "key_lt (fst y) (fst x)")
    case (Inl e)
    with Cons.prems show ?thesis by simp
  next
    case (Inr b)
    show ?thesis
    proof (cases b)
      case True
      with Inr Cons.prems obtain zs' where z: "insert_by_key x ys = Inr zs'" "zs = y # zs'"
        by (cases "insert_by_key x ys") auto
      from Cons.IH [OF z(1)] z(2) show ?thesis by auto
    next
      case False
      with Inr Cons.prems show ?thesis by auto
    qed
  qed
qed

lemma sort_by_key_set: "sort_by_key ks = Inr ss \<Longrightarrow> set ss = set ks"
proof (induction ks arbitrary: ss)
  case Nil
  then show ?case by simp
next
  case (Cons k ks)
  then obtain ys where ys: "sort_by_key ks = Inr ys" and ins: "insert_by_key k ys = Inr ss"
    by (cases "sort_by_key ks") auto
  from Cons.IH [OF ys] insert_by_key_set [OF ins] show ?case by simp
qed

lemma insert_by_key_head_type:
  "insert_by_key x (y # ys) = Inr zs \<Longrightarrow> is_int_key (fst y) = is_int_key (fst x)"
  using key_lt_Inr_same_type [of "fst y" "fst x"]
  by (cases "key_lt (fst y) (fst x)") simp_all

lemma sort_by_key_one_type:
  "sort_by_key ks = Inr ss \<Longrightarrow> k1 \<in> set ks \<Longrightarrow> k2 \<in> set ks \<Longrightarrow>
   is_int_key (fst k1) = is_int_key (fst k2)"
proof (induction ks arbitrary: ss k1 k2)
  case Nil
  then show ?case by simp
next
  case (Cons x xs)
  from Cons.prems(1) obtain ys where ys: "sort_by_key xs = Inr ys"
    and ins: "insert_by_key x ys = Inr ss"
    by (cases "sort_by_key xs") auto
  have tail: "is_int_key (fst k) = is_int_key (fst x)" if "k \<in> set xs" for k
  proof (cases ys)
    case Nil
    with sort_by_key_set [OF ys] that show ?thesis by simp
  next
    case (Cons y ys')
    with sort_by_key_set [OF ys] have "y \<in> set xs" by auto
    from Cons.IH [OF ys that this] have "is_int_key (fst k) = is_int_key (fst y)" .
    moreover from ins Cons have "is_int_key (fst y) = is_int_key (fst x)"
      by (simp only: insert_by_key_head_type)
    ultimately show ?thesis by simp
  qed
  have all: "is_int_key (fst k) = is_int_key (fst x)" if "k \<in> set (x # xs)" for k
  proof (cases "k = x")
    case True
    then show ?thesis by simp
  next
    case False
    with that have "k \<in> set xs" by simp
    then show ?thesis by (rule tail)
  qed
  from all [OF Cons.prems(2)] all [OF Cons.prems(3)] show ?case by simp
qed

lemma sorted_py_mixed_keys:
  assumes "with_keys f xs = Inr ks"
    and "(KInt i, a) \<in> set ks" and "(KStr s, b) \<in> set ks"
  shows "sorted_py f reverse xs = Inl TypeError"
proof (cases "sort_by_key (if reverse then rev ks else ks)")
  case (Inl err)
  from sort_by_key_Inl [OF Inl] Inl assms(1) show ?thesis
    by (simp add: sorted_py_def)
next
  case (Inr ss)
  have "(KInt i, a) \<in> set (if reverse then rev ks else ks)"
    and "(KStr s, b) \<in> set (if reverse then rev ks else ks)"
    using assms by simp_all
  from sort_by_key_one_type [OF Inr this] show ?thesis by simp
qed


text \<open>
  On \<open>int\<close> keys the sort is the stable insertion sort of the library, so that
  \<open>sorted\<close> with \<open>reverse=True\<close> is the reversed stable sort of the reversed list.
\<close>

lemma insert_by_key_int_keys:
  "is_int_key (fst x) \<Longrightarrow> \<forall>k \<in> set ys. is_int_key (fst k) \<Longrightarrow>
   insert_by_key x ys = Inr (insort_key (\<lambda>k. int_of_key (fst k)) x ys)"
proof (induction ys)
  case Nil
  then show ?case by simp
next
  case (Cons y ys)
  from Cons.prems obtain a b where ab: "fst x = KInt a" "fst y = KInt b"
    by (cases "fst x"; cases "fst y") simp_all
  from Cons have ih: "insert_by_key x ys = Inr (insort_key (\<lambda>k. int_of_key (fst k)) x ys)"
    by simp
  show ?case
  proof (cases "b < a")
    case True
    with ab ih show ?thesis by simp
  next
    case False
    with ab show ?thesis by simp
  qed
qed

lemma sort_by_key_int_keys:
  "\<forall>k \<in> set ks. is_int_key (fst k) \<Longrightarrow>
   sort_by_key ks = Inr (sort_key (\<lambda>k. int_of_key (fst k)) ks)"
proof (induction ks)
  case Nil
  then show ?case by simp
next
  case (Cons x xs)
  then have ih: "sort_by_key xs = Inr (sort_key (\<lambda>k. int_of_key (fst k)) xs)"
    by simp
  have "\<forall>k \<in> set (sort_key (\<lambda>k. int_of_key (fst k)) xs). is_int_key (fst k)"
    using Cons.prems by simp
  with Cons.prems insert_by_key_int_keys [of x "sort_key (\<lambda>k. int_of_key (fst k)) xs"]
  have "insert_by_key x (sort_key (\<lambda>k. int_of_key (fst k)) xs)
        = Inr (insort_key (\<lambda>k. int_of_key (fst k)) x (sort_key (\<lambda>k. int_of_key (fst k)) xs))"
    by simp
  with ih show ?case by simp
qed

lemma sorted_py_int_keys:
  assumes "with_keys f xs = Inr ks" and "\<forall>k \<in> set ks. is_int_key (fst k)"
  shows "sorted_py f True xs
         = Inr (map snd (rev (sort_key (\<lambda>k. int_of_key (fst k)) (rev ks))))"
proof -
  from assms(2) have "\<forall>k \<in> set (rev ks). is_int_key (fst k)" by simp
  from sort_by_key_int_keys [OF this] assms(1) show ?thesis
    by (simp add: sorted_py_def)
qed

lemma sorter_examples:
  "sorter exp_2024_02 = Inr (KInt 202402)"
  "sorter exp_2023_11 = Inr (KInt 202311)"
  "sorter exp_bad_id = Inr (KStr ''badid'')"
  by code_simp+

text \<open>
  C2. The keys of the three records are 202402, 202311 and the string \<open>badid\<close>.
  Constructing the view over the three records raises \<open>TypeError\<close>: the sort compares
  an \<open>int\<close> key with a \<open>str\<close> key. Over the two well-formed records alone the
  view holds them in descending order.
\<close>

theorem ExperimentBrowserView_init_mixed_ids:
  "sorter exp_2024_02 = Inr (KInt 202402)
   \<and> sorter exp_2023_11 = Inr (KInt 202311)
   \<and> sorter exp_bad_id = Inr (KStr ''badid'')
   \<and> ExperimentBrowserView_init [exp_2024_02, exp_2023_11, exp_bad_id] 0 = Inl TypeError
   \<and> ExperimentBrowserView_init [exp_2023_11, exp_2024_02] 0
        = Inr (PaginatedView_init [exp_2024_02, exp_2023_11] 0 20)"
proof -
  have a: "ExperimentBrowserView_init [exp_2024_02, exp_2023_11, exp_bad_id] 0 = Inl TypeError"
    by code_simp
  have b: "ExperimentBrowserView_init [exp_2023_11, exp_2024_02] 0
        = Inr (PaginatedView_init [exp_2024_02, exp_2023_11] 0 20)"
    by (simp add: ExperimentBrowserView_init_def sorted_py_def sorter_examples)
  show ?thesis by (simp only: a b sorter_examples simp_thms)
qed

text \<open>The same outcome for every list with an \<open>int\<close> key and a \<open>str\<close> key in it.\<close>

lemma ExperimentBrowserView_init_mixed_keys:
  assumes "with_keys sorter xs = Inr ks"
    and "(KInt i, a) \<in> set ks" and "(KStr s, b) \<in> set ks"
  shows "ExperimentBrowserView_init xs k = Inl TypeError"
  using sorted_py_mixed_keys [OF assms, of True]
  by (simp add: ExperimentBrowserView_init_def)

section \<open>The detail embed\<close>

text \<open>
  C8. For every experiment the description of the detail embed has the three lines
  ID, Kind and File: the File line is never left out, since the formatted line is not
  empty even when the file is. The Treatments field lists \<open>Not Eligible\<close>,
  \<open>Control Bucket\<close> and one line per treatment. For the first example record, whose
  file is empty, the description ends with the line \<open>File: ``\<close>.
\<close>

theorem ExperimentEmbed_always_has_file_line:
  "description (ExperimentEmbed e) =
     Some (''ID: `'' @ exp_id e @ ''`'' @ nl @ ''Kind: '' @ kind_title (kind e) @ nl
           @ ''File: `'' @ exp_file e @ ''`'')
   \<and> map val (embed_fields (ExperimentEmbed e)) =
       [join nl (''- Not Eligible'' # ''- Control Bucket'' #
          map (\<lambda>t. ''- Treatment '' @ str_int (treatment_id t) @ '': '' @ treatment_label t)
              (treatments e))]
   \<and> exp_file exp_2024_02 = []
   \<and> description (ExperimentEmbed exp_2024_02) =
       Some (''ID: `2024-02-x`'' @ nl @ ''Kind: User'' @ nl @ ''File: ``'')
   \<and> map val (embed_fields (ExperimentEmbed exp_2024_02)) =
       [''- Not Eligible'' @ nl @ ''- Control Bucket'' @ nl @ ''- Treatment 1: Enabled'']"
proof -
  have d: "description (ExperimentEmbed e) =
     Some (''ID: `'' @ exp_id e @ ''`'' @ nl @ ''Kind: '' @ kind_title (kind e) @ nl
           @ ''File: `'' @ exp_file e @ ''`'')" for e
    by (simp add: ExperimentEmbed_def Let_def)
  have f: "map val (embed_fields (ExperimentEmbed e)) =
       [join nl (''- Not Eligible'' # ''- Control Bucket'' #
          map (\<lambda>t. ''- Treatment '' @ str_int (treatment_id t) @ '': '' @ treatment_label t)
              (treatments e))]" for e
    by (simp add: ExperimentEmbed_def Let_def comp_def)
  have s: "str_int 1 = ''1''" by code_simp
  have x: "exp_file exp_2024_02 = []" by (simp add: exp_2024_02_def)
  have d1: "description (ExperimentEmbed exp_2024_02) =
       Some (''ID: `2024-02-x`'' @ nl @ ''Kind: User'' @ nl @ ''File: ``'')"
    by (simp add: d exp_2024_02_def)
  have f1: "map val (embed_fields (ExperimentEmbed exp_2024_02)) =
       [''- Not Eligible'' @ nl @ ''- Control Bucket'' @ nl @ ''- Treatment 1: Enabled'']"
    by (simp add: f exp_2024_02_def s)
  show ?thesis by (intro conjI d f x d1 f1)
qed

section \<open>The caller's list\<close>

text \<open>
  C10. Constructing an \<open>ExperimentBrowserView\<close> from the list object at address \<open>a\<close>
  leaves that object, and every other list object, as it was, whether the constructor
  returns or raises. When it returns, the view holds a new list object, at an address
  that was not in use, with the sorted experiments.
\<close>

theorem ExperimentBrowserView_init_keeps_argument:
  assumes "a < length h" and "ExperimentBrowserView_init_on_heap h a k = (h1, r)"
  shows "h1 ! a = h ! a
         \<and> (\<forall>b < length h. h1 ! b = h ! b)
         \<and> (case r of
               Inl err \<Rightarrow> h1 = h \<and> ExperimentBrowserView_init (h ! a) k = Inl err
             | Inr (ref, view) \<Rightarrow>
                 ref = length h \<and> ref \<noteq> a \<and> h1 = h @ [data view] \<and> h1 ! ref = data view
                 \<and> ExperimentBrowserView_init (h ! a) k = Inr view)"
proof (cases "sorted_py sorter True (h ! a)")
  case (Inl err)
  with assms show ?thesis
    by (auto simp: ExperimentBrowserView_init_on_heap_def sorted_on_heap_def
        ExperimentBrowserView_init_def)
next
  case (Inr ys)
  with assms(2) have h1: "h1 = h @ [ys]"
    and r: "r = Inr (length h, PaginatedView_init ys k 20)"
    by (auto simp: ExperimentBrowserView_init_on_heap_def sorted_on_heap_def)
  have keep: "\<forall>b < length h. h1 ! b = h ! b"
    by (simp add: h1 nth_append)
  with assms(1) have "h1 ! a = h ! a" by simp
  moreover have "case r of
               Inl err \<Rightarrow> h1 = h \<and> ExperimentBrowserView_init (h ! a) k = Inl err
             | Inr (ref, view) \<Rightarrow>
                 ref = length h \<and> ref \<noteq> a \<and> h1 = h @ [data view] \<and> h1 ! ref = data view
                 \<and> ExperimentBrowserView_init (h ! a) k = Inr view"
    using assms(1) Inr
    by (simp add: r h1 ExperimentBrowserView_init_def PaginatedView_init_def)
  ultimately show ?thesis using keep by simp
qed

theorem ExperimentBrowserView_init_keeps_argument_witness:
  "(0::nat) < length [[exp_2023_11, exp_2024_02]]
   \<and> ExperimentBrowserView_init_on_heap [[exp_2023_11, exp_2024_02]] 0 0
       = ([[exp_2023_11, exp_2024_02], [exp_2024_02, exp_2023_11]],
          Inr (1, PaginatedView_init [exp_2024_02, exp_2023_11] 0 20))
   \<and> [[exp_2023_11, exp_2024_02], [exp_2024_02, exp_2023_11]] ! 0 = [exp_2023_11, exp_2024_02]"
proof -
  have s: "sorted_py sorter True [exp_2023_11, exp_2024_02] = Inr [exp_2024_02, exp_2023_11]"
    by (simp add: sorted_py_def sorter_examples)
  have e: "ExperimentBrowserView_init_on_heap [[exp_2023_11, exp_2024_02]] 0 0
       = ([[exp_2023_11, exp_2024_02], [exp_2024_02, exp_2023_11]],
          Inr (1, PaginatedView_init [exp_2024_02, exp_2023_11] 0 20))"
    by (simp add: ExperimentBrowserView_init_on_heap_def sorted_on_heap_def s)
  have l: "(0::nat) < length [[exp_2023_11, exp_2024_02]]" by simp
  from ExperimentBrowserView_init_keeps_argument [OF l e] l e show ?thesis by simp
qed

end
